theory Spec2Isabelle
  imports Main "HOL-Library.Sublist"
begin

section \<open>The gRPC plugin server of go-plugin (grpc\_server.go)\<close>

text \<open>
  The file embeds the type \<open>GRPCServer\<close> and its methods \<open>Init\<close> and \<open>Config\<close>.
  Everything \<open>Init\<close> calls that is not written in grpc\_server.go (the server factory
  held in the field \<open>Server\<close>, the \<open>GRPCServer\<close> method of each plugin) is code of the
  caller: it is a function stored in the state, it may read and change the gRPC servers
  it is given, and it is assumed to return. The servers live outside the struct, in a
  world of type \<open>'w\<close> that every such call takes and gives back; the struct only holds
  pointers, and the caller's code does not write to the struct while \<open>Init\<close> runs.
\<close>

subsection \<open>Data\<close>

text \<open>A Go pointer, channel or interface value: \<open>None\<close> is \<open>nil\<close>.\<close>

type_synonym ref = "nat option"

text \<open>\<open>credentials.NewTLS(cfg)\<close> and \<open>grpc.Creds(c)\<close>, as the terms they are built from.\<close>

datatype transport_credentials = NewTLS nat

datatype server_option = Creds transport_credentials

text \<open>
  A value of the interface \<open>Plugin\<close>. The type assertion \<open>raw.(GRPCPlugin)\<close> of line 68
  succeeds on a value that has the method \<open>GRPCServer(*grpc.Server) error\<close>, here
  \<open>GRPCPlugin m\<close> with \<open>m\<close> the method: it takes the server pointer and the world and
  returns its error (\<open>None\<close> is \<open>nil\<close>, \<open>Some t\<close> an error whose \<open>Error()\<close> text is \<open>t\<close>)
  and the world it leaves. Every other value, a nil interface included, is \<open>OtherPlugin\<close>.
\<close>

datatype 'w plugin =
    OtherPlugin
  | GRPCPlugin "ref \<Rightarrow> 'w \<Rightarrow> string option \<times> 'w"

text \<open>\<open>GRPCServerConfig\<close>, lines 107 to 110.\<close>

record GRPCServerConfig =
  StdoutAddr :: string
  StderrAddr :: string

text \<open>
  \<open>GRPCServer\<close>, lines 26 to 48. \<open>Server\<close> is a function value and may be nil; \<open>TLS\<close> is a
  pointer to a \<open>tls.Config\<close>; \<open>server\<close> is the pointer to the gRPC server.
\<close>

record 'w GRPCServer =
  Plugins :: "string \<rightharpoonup> 'w plugin"
  Server :: "(server_option list \<Rightarrow> 'w \<Rightarrow> ref \<times> 'w) option"
  TLS :: ref
  DoneCh :: ref
  Stdout :: ref
  Stderr :: ref
  config :: GRPCServerConfig
  server :: ref

text \<open>
  The two errors \<open>Init\<close> builds with \<open>fmt.Errorf\<close> (lines 70 and 74), with the plugin's
  name and, for the second, the text of the plugin's own error.
\<close>

datatype init_error =
    NotGRPCCompatible string
  | RegisterError string string

text \<open>
  The message of an error. The verb \<open>%q\<close> of package fmt prints a string as a quoted Go
  string literal (\<open>strconv.Quote\<close>); that library function is the parameter \<open>q\<close>.
\<close>

fun Error_text :: "(string \<Rightarrow> string) \<Rightarrow> init_error \<Rightarrow> string" where
  "Error_text q (NotGRPCCompatible k) = q k @ '' is not a GRPC-compatibile plugin''"
| "Error_text q (RegisterError k e) = ''error registring '' @ q k @ '': '' @ e"

fun error_name :: "init_error \<Rightarrow> string" where
  "error_name (NotGRPCCompatible k) = k"
| "error_name (RegisterError k e) = k"

text \<open>
  What \<open>%q\<close> prints for a name made of printable ASCII characters other than the
  double quote and the backslash: the name between double quotes.
\<close>

definition quote_plain :: "string \<Rightarrow> string" where
  "quote_plain k = [CHR 0x22] @ k @ [CHR 0x22]"

text \<open>
  The calls \<open>Init\<close> makes to the caller's code, in the order it makes them: the factory
  with its options (line 64), and the \<open>GRPCServer\<close> method of the plugin named \<open>k\<close> with
  the error it returned (line 73).
\<close>

datatype event =
    NewServer "server_option list"
  | Attach string "string option"

text \<open>
  The errors of package encoding/json that \<open>Marshal\<close> reports for a value it cannot
  encode, and the two panics of the file: the call of a nil function value (line 64)
  and \<open>panic(err)\<close> (line 91).
\<close>

datatype json_error = UnsupportedTypeError

datatype panic = NilFunctionCall | EncoderError json_error

text \<open>How a call ends: it returns a value, or it panics.\<close>

datatype 'a completion = Returns 'a | Panics panic

record 'w outcome =
  result :: "init_error option completion"
  state :: "'w GRPCServer"
  world :: "'w"
  calls :: "event list"

subsection \<open>Init\<close>

text \<open>Lines 60 to 63: the options the factory is called with.\<close>

definition transport_options :: "ref \<Rightarrow> server_option list" where
  "transport_options tls =
     (case tls of None \<Rightarrow> [] | Some c \<Rightarrow> [] @ [Creds (NewTLS c)])"

text \<open>
  \<open>range s.Plugins\<close> visits every entry of the map once, in an order the language does
  not fix. \<open>ks\<close> is the order of the keys in one run (\<open>range_order\<close>); a key that is not
  in the map yields no entry.
\<close>

definition range_map :: "('k \<rightharpoonup> 'v) \<Rightarrow> 'k list \<Rightarrow> ('k \<times> 'v) list" where
  "range_map m ks = List.map_filter (\<lambda>k. map_option (Pair k) (m k)) ks"

definition range_order :: "('k \<rightharpoonup> 'v) \<Rightarrow> 'k list \<Rightarrow> bool" where
  "range_order m ks = (distinct ks \<and> set ks = dom m)"

text \<open>
  The loop of lines 67 to 76 over the entries still to visit. It returns the error, the
  world and the calls it made.
\<close>

fun register :: "ref \<Rightarrow> (string \<times> 'w plugin) list \<Rightarrow> 'w \<Rightarrow> init_error option \<times> 'w \<times> event list" where
  "register srv [] w = (None, w, [])"
| "register srv ((k, raw) # rest) w =
     (case raw of
        OtherPlugin \<Rightarrow> (Some (NotGRPCCompatible k), w, [])
      | GRPCPlugin p \<Rightarrow>
          (case p srv w of
             (Some err, w') \<Rightarrow> (Some (RegisterError k err), w', [Attach k (Some err)])
           | (None, w') \<Rightarrow>
               (case register srv rest w' of
                  (r, w'', evs) \<Rightarrow> (r, w'', Attach k None # evs))))"

text \<open>
  \<open>Init\<close>, lines 51 to 79, on the state \<open>s\<close>, with the keys ranged in the order \<open>ks\<close>.
  The \<open>if\<close> of lines 55 to 57 has an empty body. The call of a nil \<open>s.Server\<close> panics
  before \<open>s.server\<close> is assigned.
\<close>

definition Init :: "'w GRPCServer \<Rightarrow> string list \<Rightarrow> 'w \<Rightarrow> 'w outcome" where
  "Init s ks w =
     (case Server s of
        None \<Rightarrow> \<lparr>result = Panics NilFunctionCall, state = s, world = w, calls = []\<rparr>
      | Some f \<Rightarrow>
          (case f (transport_options (TLS s)) w of
             (srv, w1) \<Rightarrow>
               (case register srv (range_map (Plugins s) ks) w1 of
                  (r, w2, evs) \<Rightarrow>
                    \<lparr>result = Returns r, state = s\<lparr>server := srv\<rparr>, world = w2,
                     calls = NewServer (transport_options (TLS s)) # evs\<rparr>)))"

subsection \<open>Config\<close>

text \<open>
  \<open>Config\<close> hands \<open>s.config\<close> to \<open>json.NewEncoder(&buf).Encode\<close>. The encoder is
  library code (package encoding/json, with unicode/utf8 below it); the part of it that
  a struct of strings reaches is written out here after the library's source, for the
  encoder's default setting (HTML escaping on). A Go string is a sequence of bytes, a
  \<open>char list\<close>.
\<close>

text \<open>\<open>utf8.DecodeRuneInString\<close>: the first code point of \<open>s\<close> and its width in bytes.\<close>

definition RuneError :: nat where
  "RuneError = 0xFFFD"

definition DecodeRuneInString :: "string \<Rightarrow> nat \<times> nat" where
  "DecodeRuneInString s =
     (if length s < 1 then (RuneError, 0)
      else
        let s0 = (of_char (s ! 0) :: nat) in
        if s0 < 0x80 then (s0, 1)
        else if s0 < 0xC2 \<or> 0xF4 < s0 then (RuneError, 1)
        else
          let sz = (if s0 < 0xE0 then 2 else if s0 < 0xF0 then 3 else (4::nat));
              lo = (if s0 = 0xE0 then 0xA0 else if s0 = 0xF0 then 0x90 else (0x80::nat));
              hi = (if s0 = 0xED then 0x9F else if s0 = 0xF4 then 0x8F else (0xBF::nat))
          in
          if length s < sz then (RuneError, 1)
          else
            let s1 = (of_char (s ! 1) :: nat) in
            if s1 < lo \<or> hi < s1 then (RuneError, 1)
            else if sz \<le> 2 then ((s0 mod 32) * 64 + s1 mod 64, 2)
            else
              let s2 = (of_char (s ! 2) :: nat) in
              if s2 < 0x80 \<or> 0xBF < s2 then (RuneError, 1)
              else if sz \<le> 3 then ((s0 mod 16) * 4096 + (s1 mod 64) * 64 + s2 mod 64, 3)
              else
                let s3 = (of_char (s ! 3) :: nat) in
                if s3 < 0x80 \<or> 0xBF < s3 then (RuneError, 1)
                else ((s0 mod 8) * 262144 + (s1 mod 64) * 4096 + (s2 mod 64) * 64 + s3 mod 64, 4))"

definition hex :: string where
  "hex = ''0123456789abcdef''"

text \<open>
  The ASCII bytes the encoder copies as they are: \<open>0x20\<close> to \<open>0x7F\<close> but the double
  quote, the backslash and \<open>&\<close>, \<open><\<close>, \<open>>\<close>.
\<close>

definition htmlSafeSet :: "char \<Rightarrow> bool" where
  "htmlSafeSet c =
     (0x20 \<le> (of_char c :: nat) \<and> (of_char c :: nat) < 0x80 \<and>
      c \<noteq> CHR 0x22 \<and> c \<noteq> CHR ''&'' \<and> c \<noteq> CHR ''<'' \<and> c \<noteq> CHR ''>'' \<and> c \<noteq> CHR 0x5C)"

text \<open>
  The escape of an ASCII byte that is not copied. The short forms of backspace and form
  feed are those of the library since Go 1.22; before, it wrote these two bytes as
  \<open>\u0008\<close> and \<open>\u000c\<close>, which denote the same characters.
\<close>

definition escape_byte :: "char \<Rightarrow> string" where
  "escape_byte c =
     (if c = CHR 0x5C \<or> c = CHR 0x22 then [CHR 0x5C, c]
      else if c = CHR 0x08 then [CHR 0x5C, CHR ''b'']
      else if c = CHR 0x0C then [CHR 0x5C, CHR ''f'']
      else if c = CHR 0x0A then [CHR 0x5C, CHR ''n'']
      else if c = CHR 0x0D then [CHR 0x5C, CHR ''r'']
      else if c = CHR 0x09 then [CHR 0x5C, CHR ''t'']
      else [CHR 0x5C, CHR ''u'', CHR ''0'', CHR ''0'',
            hex ! ((of_char c :: nat) div 16), hex ! ((of_char c :: nat) mod 16)])"

text \<open>
  The loop of the encoder's \<open>appendString\<close> over the bytes still to encode: a byte that
  starts no valid UTF-8 sequence becomes \<open>\ufffd\<close>, the code points U+2028 and U+2029
  are escaped, every other sequence is copied.
\<close>

fun appendString_loop :: "string \<Rightarrow> string" where
  "appendString_loop [] = []"
| "appendString_loop (c # cs) =
     (if (of_char c :: nat) < 0x80 then
        (if htmlSafeSet c then [c] else escape_byte c) @ appendString_loop cs
      else
        (case DecodeRuneInString (take 4 (c # cs)) of
           (r, n) \<Rightarrow>
             if r = RuneError \<and> n = 1 then
               [CHR 0x5C, CHR ''u'', CHR ''f'', CHR ''f'', CHR ''f'', CHR ''d'']
                 @ appendString_loop cs
             else if r = 0x2028 \<or> r = 0x2029 then
               [CHR 0x5C, CHR ''u'', CHR ''2'', CHR ''0'', CHR ''2'', hex ! (r mod 16)]
                 @ appendString_loop (drop (n - 1) cs)
             else take n (c # cs) @ appendString_loop (drop (n - 1) cs)))"

definition appendString :: "string \<Rightarrow> string" where
  "appendString src = [CHR 0x22] @ appendString_loop src @ [CHR 0x22]"

text \<open>
  A Go value as the encoder sees it through reflection: a string, a boolean, a struct
  as the list of its exported fields with their JSON names, and two of the kinds the
  encoder refuses.
\<close>

datatype go_value =
    GoString string
  | GoBool bool
  | GoStruct "(string \<times> go_value) list"
  | GoChan
  | GoFunc

text \<open>
  \<open>json.Marshal\<close>. A struct is written field by field, \<open>{\<close> before the first and a
  comma before each other one (\<open>sep\<close>), each as its quoted name, a colon and its value.
  The library quotes a name once, when it first sees the type, escaping what it escapes
  in a string; for the two names of \<open>GRPCServerConfig\<close> that is the name between
  double quotes.
\<close>

fun marshal :: "go_value \<Rightarrow> json_error + string"
  and marshal_fields :: "string \<Rightarrow> (string \<times> go_value) list \<Rightarrow> json_error + string" where
  "marshal (GoString s) = Inr (appendString s)"
| "marshal (GoBool b) = Inr (if b then ''true'' else ''false'')"
| "marshal (GoStruct fs) =
     (case marshal_fields ''{'' fs of
        Inl e \<Rightarrow> Inl e
      | Inr js \<Rightarrow> Inr (if fs = [] then ''{}'' else js @ ''}''))"
| "marshal GoChan = Inl UnsupportedTypeError"
| "marshal GoFunc = Inl UnsupportedTypeError"
| "marshal_fields sep [] = Inr []"
| "marshal_fields sep ((name, v) # fs) =
     (case marshal v of
        Inl e \<Rightarrow> Inl e
      | Inr j \<Rightarrow>
          (case marshal_fields '','' fs of
             Inl e \<Rightarrow> Inl e
           | Inr js \<Rightarrow> Inr (sep @ appendString name @ '':'' @ j @ js)))"

text \<open>
  \<open>(*Encoder).Encode\<close> on a \<open>bytes.Buffer\<close> holding \<open>buf\<close>: the encoding of the value
  and a newline are appended; writing to the buffer reports no error.
\<close>

definition Encode :: "string \<Rightarrow> go_value \<Rightarrow> json_error option \<times> string" where
  "Encode buf v =
     (case marshal v of
        Inl e \<Rightarrow> (Some e, buf)
      | Inr j \<Rightarrow> (None, buf @ j @ [CHR 0x0A]))"

text \<open>\<open>GRPCServerConfig\<close> with its field tags (lines 108 and 109), as the encoder sees it.\<close>

definition GRPCServerConfig_value :: "GRPCServerConfig \<Rightarrow> go_value" where
  "GRPCServerConfig_value c =
     GoStruct [(''stdout_addr'', GoString (StdoutAddr c)), (''stderr_addr'', GoString (StderrAddr c))]"

text \<open>
  \<open>Config\<close>, lines 82 to 95: the string it returns or its panic, and the state it
  leaves.
\<close>

definition Config :: "'w GRPCServer \<Rightarrow> string completion \<times> 'w GRPCServer" where
  "Config s =
     (case Encode [] (GRPCServerConfig_value (config s)) of
        (Some err, buf) \<Rightarrow> (Panics (EncoderError err), s)
      | (None, buf) \<Rightarrow> (Returns buf, s))"

text \<open>
  The characters of a base64 text, the encoding that the comments of lines 24, 81 and
  86 give for the configuration: the standard alphabet and the padding character.
\<close>

definition base64_char :: "char \<Rightarrow> bool" where
  "base64_char c =
     ((0x41 \<le> (of_char c :: nat) \<and> (of_char c :: nat) \<le> 0x5A) \<or>
      (0x61 \<le> (of_char c :: nat) \<and> (of_char c :: nat) \<le> 0x7A) \<or>
      (0x30 \<le> (of_char c :: nat) \<and> (of_char c :: nat) \<le> 0x39) \<or>
      c = CHR ''+'' \<or> c = CHR ''/'' \<or> c = CHR ''='')"

text \<open>
  \<open>utf8.ValidString\<close>: the string is a sequence of valid UTF-8 encodings, that is, the
  decoding of no position of it gives \<open>RuneError\<close> with width 1.
\<close>

fun ValidString :: "string \<Rightarrow> bool" where
  "ValidString [] = True"
| "ValidString (c # cs) =
     (if (of_char c :: nat) < 0x80 then ValidString cs
      else
        (case DecodeRuneInString (take 4 (c # cs)) of
           (r, n) \<Rightarrow> \<not> (r = RuneError \<and> n = 1) \<and> ValidString (drop (n - 1) cs)))"

subsection \<open>Reading the configuration back\<close>

text \<open>
  Modelled from the spec: the parsing of the structured record, which the consumer of
  the configuration does and grpc\_server.go does not contain. The record is a JSON
  object whose members are strings; it is read as JSON (RFC 8259) is read by the
  decoder of package encoding/json. First the value of a hexadecimal digit.
\<close>

definition hex_value :: "char \<Rightarrow> nat option" where
  "hex_value c =
     (if 0x30 \<le> (of_char c :: nat) \<and> (of_char c :: nat) \<le> 0x39 then Some (of_char c - 0x30)
      else if 0x61 \<le> (of_char c :: nat) \<and> (of_char c :: nat) \<le> 0x66 then Some (of_char c - 0x61 + 10)
      else if 0x41 \<le> (of_char c :: nat) \<and> (of_char c :: nat) \<le> 0x46 then Some (of_char c - 0x41 + 10)
      else None)"

text \<open>Modelled from the spec: the four hexadecimal digits of a \<open>\u\<close> escape.\<close>

definition getu4 :: "string \<Rightarrow> nat option" where
  "getu4 s =
     (case map hex_value (take 4 s) of
        [Some a, Some b, Some c, Some d] \<Rightarrow> Some (((a * 16 + b) * 16 + c) * 16 + d)
      | _ \<Rightarrow> None)"

text \<open>
  Modelled from the spec: the UTF-8 encoding of a code point (\<open>utf8.EncodeRune\<close>); a
  surrogate or a value above U+10FFFF is written as U+FFFD.
\<close>

definition EncodeRune :: "nat \<Rightarrow> string" where
  "EncodeRune r =
     (if r < 0x80 then [char_of r]
      else if r < 0x800 then [char_of (0xC0 + r div 64), char_of (0x80 + r mod 64)]
      else if (0xD800 \<le> r \<and> r \<le> 0xDFFF) \<or> 0x10FFFF < r then [CHR 0xEF, CHR 0xBF, CHR 0xBD]
      else if r < 0x10000 then
        [char_of (0xE0 + r div 4096), char_of (0x80 + r div 64 mod 64), char_of (0x80 + r mod 64)]
      else
        [char_of (0xF0 + r div 262144), char_of (0x80 + r div 4096 mod 64),
         char_of (0x80 + r div 64 mod 64), char_of (0x80 + r mod 64)])"

text \<open>Modelled from the spec: the byte a one-letter escape of a JSON string stands for.\<close>

definition simple_escape :: "char \<Rightarrow> char option" where
  "simple_escape e =
     (if e = CHR 0x22 \<or> e = CHR 0x5C \<or> e = CHR ''/'' then Some e
      else if e = CHR ''b'' then Some (CHR 0x08)
      else if e = CHR ''f'' then Some (CHR 0x0C)
      else if e = CHR ''n'' then Some (CHR 0x0A)
      else if e = CHR ''r'' then Some (CHR 0x0D)
      else if e = CHR ''t'' then Some (CHR 0x09)
      else None)"

text \<open>
  Modelled from the spec: the low surrogate that a second \<open>\u\<close> escape gives, if the
  text starts with one.
\<close>

definition low_surrogate :: "string \<Rightarrow> nat option" where
  "low_surrogate s =
     (case s of
        b # u # ds \<Rightarrow>
          if b = CHR 0x5C \<and> u = CHR ''u'' then
            (case getu4 ds of
               Some lo \<Rightarrow> if 0xDC00 \<le> lo \<and> lo \<le> 0xDFFF then Some lo else None
             | None \<Rightarrow> None)
          else None
      | _ \<Rightarrow> None)"

text \<open>
  Modelled from the spec: the text of a JSON string from behind its opening quote, and
  what follows its closing quote. Escapes are decoded, a surrogate pair gives one code
  point, a lone surrogate gives U+FFFD, a control character ends the parse, and every
  other byte is copied.
\<close>

fun unquote :: "string \<Rightarrow> (string \<times> string) option" where
  "unquote [] = None"
| "unquote (c # cs) =
     (if c = CHR 0x22 then Some ([], cs)
      else if c = CHR 0x5C then
        (case cs of
           [] \<Rightarrow> None
         | e # ds \<Rightarrow>
             if e = CHR ''u'' then
               (case getu4 ds of
                  None \<Rightarrow> None
                | Some r \<Rightarrow>
                    if 0xD800 \<le> r \<and> r \<le> 0xDBFF then
                      (case low_surrogate (drop 4 ds) of
                         Some lo \<Rightarrow>
                           map_option
                             (\<lambda>(t, rest). (EncodeRune ((r - 0xD800) * 0x400 + (lo - 0xDC00) + 0x10000) @ t, rest))
                             (unquote (drop 10 ds))
                       | None \<Rightarrow>
                           map_option (\<lambda>(t, rest). (EncodeRune RuneError @ t, rest))
                             (unquote (drop 4 ds)))
                    else
                      map_option (\<lambda>(t, rest). (EncodeRune r @ t, rest)) (unquote (drop 4 ds)))
             else
               (case simple_escape e of
                  None \<Rightarrow> None
                | Some b \<Rightarrow> map_option (\<lambda>(t, rest). (b # t, rest)) (unquote ds)))
      else if (of_char c :: nat) < 0x20 then None
      else map_option (\<lambda>(t, rest). (c # t, rest)) (unquote cs))"

text \<open>Modelled from the spec: the white space of JSON.\<close>

definition is_space :: "char \<Rightarrow> bool" where
  "is_space c = (c = CHR '' '' \<or> c = CHR 0x09 \<or> c = CHR 0x0A \<or> c = CHR 0x0D)"

definition skip_space :: "string \<Rightarrow> string" where
  "skip_space s = dropWhile is_space s"

text \<open>Modelled from the spec: a JSON string, after white space.\<close>

definition parse_string :: "string \<Rightarrow> (string \<times> string) option" where
  "parse_string s =
     (case skip_space s of
        [] \<Rightarrow> None
      | c # cs \<Rightarrow> if c = CHR 0x22 then unquote cs else None)"

text \<open>Modelled from the spec: the character \<open>c\<close>, after white space.\<close>

definition expect :: "char \<Rightarrow> string \<Rightarrow> string option" where
  "expect c s =
     (case skip_space s of
        [] \<Rightarrow> None
      | d # ds \<Rightarrow> if d = c then Some ds else None)"

text \<open>Modelled from the spec: one member of an object, a name, a colon and a string.\<close>

definition parse_member :: "string \<Rightarrow> ((string \<times> string) \<times> string) option" where
  "parse_member s =
     (case parse_string s of
        None \<Rightarrow> None
      | Some (k, s1) \<Rightarrow>
          (case expect (CHR '':'') s1 of
             None \<Rightarrow> None
           | Some s2 \<Rightarrow>
               (case parse_string s2 of
                  None \<Rightarrow> None
                | Some (v, s3) \<Rightarrow> Some ((k, v), s3))))"

text \<open>
  Modelled from the spec: the members of an object after the first, up to the closing
  brace. Each round reads at least one character, so the length of the text is fuel
  enough.
\<close>

fun parse_members :: "nat \<Rightarrow> string \<Rightarrow> ((string \<times> string) list \<times> string) option" where
  "parse_members 0 s = None"
| "parse_members (Suc n) s =
     (case skip_space s of
        [] \<Rightarrow> None
      | c # cs \<Rightarrow>
          if c = CHR ''}'' then Some ([], cs)
          else if c = CHR '','' then
            (case parse_member cs of
               None \<Rightarrow> None
             | Some (kv, s') \<Rightarrow> map_option (\<lambda>(kvs, r). (kv # kvs, r)) (parse_members n s'))
          else None)"

text \<open>Modelled from the spec: an object of strings, as the list of its members.\<close>

definition parse_object :: "string \<Rightarrow> ((string \<times> string) list \<times> string) option" where
  "parse_object s =
     (case expect (CHR ''{'') s of
        None \<Rightarrow> None
      | Some s1 \<Rightarrow>
          (case skip_space s1 of
             [] \<Rightarrow> None
           | c # cs \<Rightarrow>
               if c = CHR ''}'' then Some ([], cs)
               else
                 (case parse_member s1 of
                    None \<Rightarrow> None
                  | Some (kv, s2) \<Rightarrow>
                      map_option (\<lambda>(kvs, r). (kv # kvs, r)) (parse_members (length s2) s2))))"

text \<open>
  Modelled from the spec: the value of a field of the record, the last member of that
  name, or the empty string when there is none.
\<close>

definition field :: "string \<Rightarrow> (string \<times> string) list \<Rightarrow> string" where
  "field k kvs = (case map_of (rev kvs) k of None \<Rightarrow> [] | Some v \<Rightarrow> v)"

text \<open>
  Modelled from the spec: the record \<open>{stdout_addr, stderr_addr}\<close> parsed from a text
  that holds one object and white space.
\<close>

definition parse_GRPCServerConfig :: "string \<Rightarrow> GRPCServerConfig option" where
  "parse_GRPCServerConfig s =
     (case parse_object s of
        None \<Rightarrow> None
      | Some (kvs, rest) \<Rightarrow>
          if skip_space rest = [] then
            Some \<lparr>StdoutAddr = field ''stdout_addr'' kvs, StderrAddr = field ''stderr_addr'' kvs\<rparr>
          else None)"

subsection \<open>Plugins by what their attach operation does, and example states\<close>

text \<open>
  A plugin that has the method and whose method returns a nil error whatever server and
  world it is given, and a plugin that lacks the method or whose method returns an
  error whatever it is given.
\<close>

definition always_attaches :: "'w plugin \<Rightarrow> bool" where
  "always_attaches raw =
     (case raw of OtherPlugin \<Rightarrow> False | GRPCPlugin p \<Rightarrow> (\<forall>srv w. fst (p srv w) = None))"

definition offends :: "'w plugin \<Rightarrow> bool" where
  "offends raw =
     (case raw of OtherPlugin \<Rightarrow> True | GRPCPlugin p \<Rightarrow> (\<forall>srv w. fst (p srv w) \<noteq> None))"

text \<open>The call of line 73 that returned the error \<open>Init\<close> reports, if there was one.\<close>

fun failed_call :: "init_error \<Rightarrow> event list" where
  "failed_call (NotGRPCCompatible k) = []"
| "failed_call (RegisterError k t) = [Attach k (Some t)]"

text \<open>
  Example states. The world is the list of the services registered on the one server;
  the factory makes that server, empty, at address 1.
\<close>

definition new_server :: "server_option list \<Rightarrow> string list \<Rightarrow> ref \<times> string list" where
  "new_server opts w = (Some 1, [])"

definition service_plugin :: "string \<Rightarrow> string list plugin" where
  "service_plugin name = GRPCPlugin (\<lambda>srv w. (None, w @ [name]))"

definition failing_plugin :: "string list plugin" where
  "failing_plugin = GRPCPlugin (\<lambda>srv w. (Some ''boom'', w))"

definition bootstrap :: "(string \<rightharpoonup> string list plugin) \<Rightarrow> ref \<Rightarrow> string list GRPCServer" where
  "bootstrap ps tls =
     \<lparr>Plugins = ps, Server = Some new_server, TLS = tls, DoneCh = Some 2,
      Stdout = Some 3, Stderr = Some 4,
      config = \<lparr>StdoutAddr = [], StderrAddr = []\<rparr>, server = None\<rparr>"

text \<open>The example state with the configuration of the two given addresses.\<close>

definition config_state :: "string \<Rightarrow> string \<Rightarrow> string list GRPCServer" where
  "config_state out err =
     (bootstrap Map.empty None)\<lparr>config := \<lparr>StdoutAddr = out, StderrAddr = err\<rparr>\<rparr>"

section \<open>Properties of Init\<close>

subsection \<open>The range and the loop\<close>

lemma range_map_Nil: "range_map m [] = []"
  by (simp add: range_map_def map_filter_simps)

lemma range_map_Cons:
  "range_map m (k # ks) = (case m k of None \<Rightarrow> range_map m ks | Some v \<Rightarrow> (k, v) # range_map m ks)"
  by (simp add: range_map_def map_filter_simps split: option.split)

lemma range_map_eq: "set ks \<subseteq> dom m \<Longrightarrow> range_map m ks = map (\<lambda>k. (k, the (m k))) ks"
  by (induction ks) (auto simp: range_map_Nil range_map_Cons)

lemma register_ok:
  "\<forall>raw \<in> snd ` set kvs. always_attaches raw \<Longrightarrow>
   fst (register srv kvs w) = None \<and>
   snd (snd (register srv kvs w)) = map (\<lambda>kv. Attach (fst kv) None) kvs"
proof (induction kvs arbitrary: w)
  case Nil
  show ?case by simp
next
  case (Cons kv kvs)
  obtain k raw where kv: "kv = (k, raw)" by (cases kv)
  from Cons.prems kv obtain p where p: "raw = GRPCPlugin p" "\<And>srv w. fst (p srv w) = None"
    by (auto simp: always_attaches_def split: plugin.splits)
  obtain w' where w': "p srv w = (None, w')"
    using p(2)[of srv w] by (cases "p srv w") auto
  from Cons.prems have "\<forall>raw \<in> snd ` set kvs. always_attaches raw" by simp
  from Cons.IH[OF this, of w'] show ?case
    by (cases "register srv kvs w'") (simp add: kv p(1) w')
qed

lemma register_calls_attach:
  "ev \<in> set (snd (snd (register srv kvs w))) \<Longrightarrow> \<exists>k r. ev = Attach k r"
proof (induction kvs arbitrary: w)
  case Nil
  then show ?case by simp
next
  case (Cons kv kvs)
  obtain k0 raw0 where kv: "kv = (k0, raw0)" by (cases kv)
  show ?case
  proof (cases raw0)
    case OtherPlugin
    with Cons.prems kv show ?thesis by simp
  next
    case (GRPCPlugin p)
    obtain r w' where pw: "p srv w = (r, w')" by (cases "p srv w")
    show ?thesis
    proof (cases r)
      case (Some t)
      with Cons.prems kv GRPCPlugin pw show ?thesis by simp
    next
      case None
      obtain r2 w2 evs where reg: "register srv kvs w' = (r2, w2, evs)"
        by (cases "register srv kvs w'")
      from Cons.prems have "ev = Attach k0 None \<or> ev \<in> set evs"
        by (simp add: kv GRPCPlugin pw None reg)
      then show ?thesis
      proof
        assume "ev = Attach k0 None"
        then show ?thesis by blast
      next
        assume "ev \<in> set evs"
        then have "ev \<in> set (snd (snd (register srv kvs w')))" by (simp add: reg)
        from Cons.IH[OF this] show ?thesis .
      qed
    qed
  qed
qed

lemma count_list_distinct: "distinct xs \<Longrightarrow> count_list xs x = (if x \<in> set xs then 1 else 0)"
  by (induction xs) auto

lemma count_list_Attach: "count_list (map (\<lambda>k. Attach k None) ks) (Attach k None) = count_list ks k"
  by (induction ks) auto

lemma register_error_shape:
  "fst (register srv kvs w) = Some e \<Longrightarrow>
   \<exists>pre raw' post.
     kvs = pre @ (error_name e, raw') # post \<and>
     snd (snd (register srv kvs w)) = map (\<lambda>kv. Attach (fst kv) None) pre @ failed_call e \<and>
     (e = NotGRPCCompatible (error_name e) \<and> raw' = OtherPlugin \<or>
      (\<exists>p t. e = RegisterError (error_name e) t \<and> raw' = GRPCPlugin p)) \<and>
     \<not> always_attaches raw' \<and> (\<forall>r \<in> snd ` set pre. \<not> offends r)"
proof (induction kvs arbitrary: w)
  case Nil
  then show ?case by simp
next
  case (Cons kv kvs)
  obtain k0 raw0 where kv: "kv = (k0, raw0)" by (cases kv)
  show ?case
  proof (cases raw0)
    case OtherPlugin
    with Cons.prems kv have e: "e = NotGRPCCompatible k0" by simp
    have "kv # kvs = [] @ (error_name e, raw0) # kvs" by (simp add: kv e)
    moreover have "snd (snd (register srv (kv # kvs) w)) = map (\<lambda>kv. Attach (fst kv) None) [] @ failed_call e"
      by (simp add: kv e OtherPlugin)
    moreover have "e = NotGRPCCompatible (error_name e) \<and> raw0 = OtherPlugin" by (simp add: OtherPlugin e)
    moreover have "\<not> always_attaches raw0" by (simp add: always_attaches_def OtherPlugin)
    moreover have "\<forall>r \<in> snd ` set []. \<not> offends r" by simp
    ultimately show ?thesis by blast
  next
    case (GRPCPlugin p)
    show ?thesis
    proof (cases "p srv w")
      case (Pair r w')
      show ?thesis
      proof (cases r)
        case (Some t)
        with Cons.prems kv GRPCPlugin Pair have e: "e = RegisterError k0 t" by simp
        have "kv # kvs = [] @ (error_name e, raw0) # kvs" by (simp add: kv e)
        moreover have "snd (snd (register srv (kv # kvs) w)) = map (\<lambda>kv. Attach (fst kv) None) [] @ failed_call e"
          by (simp add: kv e GRPCPlugin Pair Some)
        moreover have "\<exists>p t. e = RegisterError (error_name e) t \<and> raw0 = GRPCPlugin p"
          by (simp add: GRPCPlugin e)
        moreover have "\<not> always_attaches raw0"
        proof
          assume "always_attaches raw0"
          then have "fst (p srv w) = None" by (simp add: always_attaches_def GRPCPlugin)
          with Pair Some show False by simp
        qed
        moreover have "\<forall>r \<in> snd ` set []. \<not> offends r" by simp
        ultimately show ?thesis by blast
      next
        case None
        obtain r2 w2 evs where reg: "register srv kvs w' = (r2, w2, evs)"
          by (cases "register srv kvs w'")
        from Cons.prems have "fst (register srv kvs w') = Some e"
          by (simp add: kv GRPCPlugin Pair None reg)
        from Cons.IH[OF this] obtain pre raw' post where IH:
          "kvs = pre @ (error_name e, raw') # post"
          "snd (snd (register srv kvs w')) = map (\<lambda>kv. Attach (fst kv) None) pre @ failed_call e"
          "e = NotGRPCCompatible (error_name e) \<and> raw' = OtherPlugin \<or>
            (\<exists>p t. e = RegisterError (error_name e) t \<and> raw' = GRPCPlugin p)"
          "\<not> always_attaches raw'" "\<forall>r \<in> snd ` set pre. \<not> offends r"
          by (elim exE conjE)
        have "\<not> offends raw0"
        proof
          assume "offends raw0"
          then have "fst (p srv w) \<noteq> None" by (simp add: offends_def GRPCPlugin)
          with Pair None show False by simp
        qed
        have "kv # kvs = (kv # pre) @ (error_name e, raw') # post" using IH(1) by simp
        moreover have "snd (snd (register srv (kv # kvs) w)) =
            map (\<lambda>kv. Attach (fst kv) None) (kv # pre) @ failed_call e"
          using IH(2) by (simp add: kv GRPCPlugin Pair None reg)
        moreover have "\<forall>r \<in> snd ` set (kv # pre). \<not> offends r"
          using IH(5) \<open>\<not> offends raw0\<close> by (simp add: kv)
        ultimately show ?thesis using IH(3,4) by blast
      qed
    qed
  qed
qed

lemma register_offender_fails:
  "(k, raw) \<in> set kvs \<Longrightarrow> offends raw \<Longrightarrow> fst (register srv kvs w) \<noteq> None"
proof (induction kvs arbitrary: w)
  case Nil
  then show ?case by simp
next
  case (Cons kv kvs)
  obtain k0 raw0 where kv: "kv = (k0, raw0)" by (cases kv)
  show ?case
  proof (cases raw0)
    case OtherPlugin
    then show ?thesis by (simp add: kv)
  next
    case (GRPCPlugin p)
    show ?thesis
    proof (cases "p srv w")
      case (Pair r w')
      show ?thesis
      proof (cases r)
        case (Some t)
        then show ?thesis by (simp add: kv GRPCPlugin Pair)
      next
        case None
        have "\<not> offends raw0"
        proof
          assume "offends raw0"
          then have "fst (p srv w) \<noteq> None" by (simp add: offends_def GRPCPlugin)
          with Pair None show False by simp
        qed
        with Cons.prems kv have "(k, raw) \<in> set kvs" by auto
        from Cons.IH[OF this Cons.prems(2), of w'] show ?thesis
          by (cases "register srv kvs w'") (simp add: kv GRPCPlugin Pair None)
      qed
    qed
  qed
qed

lemma sublist_Error_text: "sublist (q (error_name e)) (Error_text q e)"
proof (cases e)
  case (NotGRPCCompatible k)
  show ?thesis
    unfolding NotGRPCCompatible Error_text.simps error_name.simps
    by (rule sublist_append_rightI)
next
  case (RegisterError k t)
  show ?thesis
    unfolding RegisterError Error_text.simps error_name.simps
    by (rule sublist_appendI)
qed

lemma takeWhile_reaches:
  "k \<notin> set pre \<Longrightarrow> k' \<noteq> k \<Longrightarrow> k' \<in> set (takeWhile (\<lambda>j. j \<noteq> k) (pre @ k' # post))"
  by (subst takeWhile_append2) auto

subsection \<open>The claims about Init\<close>

text \<open>
  C1, as the claim states it, fails on a map with two entries that are not
  \<open>GRPCPlugin\<close>s: whichever the range visits first is the one the error names, and the
  message does not contain the name of the other, though that entry lacks the attach
  capability as well. Both orders of the range are shown.
\<close>

theorem Init_names_first_offender_only:
  \<open>Plugins (bootstrap [''x'' \<mapsto> OtherPlugin, ''y'' \<mapsto> OtherPlugin] None) ''x'' = Some OtherPlugin \<and>
   Plugins (bootstrap [''x'' \<mapsto> OtherPlugin, ''y'' \<mapsto> OtherPlugin] None) ''y'' = Some OtherPlugin \<and>
   range_order (Plugins (bootstrap [''x'' \<mapsto> OtherPlugin, ''y'' \<mapsto> OtherPlugin] None)) [''x'', ''y''] \<and>
   result (Init (bootstrap [''x'' \<mapsto> OtherPlugin, ''y'' \<mapsto> OtherPlugin] None) [''x'', ''y''] []) =
     Returns (Some (NotGRPCCompatible ''x'')) \<and>
   Error_text quote_plain (NotGRPCCompatible ''x'') = ''"x" is not a GRPC-compatibile plugin'' \<and>
   \<not> sublist ''y'' (Error_text quote_plain (NotGRPCCompatible ''x'')) \<and>
   range_order (Plugins (bootstrap [''x'' \<mapsto> OtherPlugin, ''y'' \<mapsto> OtherPlugin] None)) [''y'', ''x''] \<and>
   result (Init (bootstrap [''x'' \<mapsto> OtherPlugin, ''y'' \<mapsto> OtherPlugin] None) [''y'', ''x''] []) =
     Returns (Some (NotGRPCCompatible ''y'')) \<and>
   Error_text quote_plain (NotGRPCCompatible ''y'') = ''"y" is not a GRPC-compatibile plugin'' \<and>
   \<not> sublist ''x'' (Error_text quote_plain (NotGRPCCompatible ''y''))\<close>
proof -
  let ?s = "bootstrap [''x'' \<mapsto> OtherPlugin, ''y'' \<mapsto> OtherPlugin] None"
  have 0: "Plugins ?s ''x'' = Some OtherPlugin" by (simp add: bootstrap_def)
  have 1: "Plugins ?s ''y'' = Some OtherPlugin" by (simp add: bootstrap_def)
  have 2: "range_order (Plugins ?s) [''x'', ''y'']"
    by (auto simp: range_order_def bootstrap_def split: if_splits)
  have 3: "result (Init ?s [''x'', ''y''] []) = Returns (Some (NotGRPCCompatible ''x''))"
    by (simp add: Init_def bootstrap_def range_map_def map_filter_simps new_server_def)
  have 4: \<open>Error_text quote_plain (NotGRPCCompatible ''x'') = ''"x" is not a GRPC-compatibile plugin''\<close>
    by (simp add: quote_plain_def)
  have 5: "\<not> sublist ''y'' (Error_text quote_plain (NotGRPCCompatible ''x''))"
    unfolding 4 by (simp add: sublist_Cons_right)
  have 6: "range_order (Plugins ?s) [''y'', ''x'']"
    by (auto simp: range_order_def bootstrap_def split: if_splits)
  have 7: "result (Init ?s [''y'', ''x''] []) = Returns (Some (NotGRPCCompatible ''y''))"
    by (simp add: Init_def bootstrap_def range_map_def map_filter_simps new_server_def)
  have 8: \<open>Error_text quote_plain (NotGRPCCompatible ''y'') = ''"y" is not a GRPC-compatibile plugin''\<close>
    by (simp add: quote_plain_def)
  have 9: "\<not> sublist ''x'' (Error_text quote_plain (NotGRPCCompatible ''y''))"
    unfolding 8 by (simp add: sublist_Cons_right)
  from 0 1 2 3 4 5 6 7 8 9 show ?thesis by (intro conjI)
qed

text \<open>
  C1, amended. Let the map hold an entry \<open>k\<close> that is not a \<open>GRPCPlugin\<close> or whose attach
  operation returns an error whatever it is given, and let the state have a factory.
  Then \<open>Init\<close> returns an error \<open>e\<close>. The error names the entry \<open>k'\<close> at which the loop
  stopped: the first entry, in the order of the range, that is not a \<open>GRPCPlugin\<close> or
  whose attach operation returned an error. Its message contains that name as \<open>%q\<close>
  prints it. \<open>k'\<close> is \<open>k\<close> or an entry visited before \<open>k\<close>, and it is \<open>k\<close> itself when
  every entry visited before \<open>k\<close> attaches without error. The attach calls made are the
  successful ones of the entries before \<open>k'\<close> and, when \<open>k'\<close> is a \<open>GRPCPlugin\<close>, its own
  failed one; no entry visited after \<open>k'\<close> is attached.
\<close>

theorem Init_fail_fast:
  assumes "range_order (Plugins s) ks" and "Server s = Some f"
    and "Plugins s k = Some raw" and "offends raw"
  shows "\<exists>e k' pre post.
     result (Init s ks w) = Returns (Some e) \<and> error_name e = k' \<and>
     sublist (q k') (Error_text q e) \<and>
     ks = pre @ k' # post \<and> k \<notin> set pre \<and>
     (e = NotGRPCCompatible k' \<and> Plugins s k' = Some OtherPlugin \<or>
      (\<exists>p t. e = RegisterError k' t \<and> Plugins s k' = Some (GRPCPlugin p))) \<and>
     calls (Init s ks w) =
       NewServer (transport_options (TLS s)) # map (\<lambda>j. Attach j None) pre @ failed_call e \<and>
     (\<forall>j \<in> set post. \<forall>r. Attach j r \<notin> set (calls (Init s ks w))) \<and>
     ((\<forall>j \<in> set (takeWhile (\<lambda>j. j \<noteq> k) ks). \<exists>r. Plugins s j = Some r \<and> always_attaches r)
        \<longrightarrow> k' = k)"
proof -
  let ?m = "Plugins s"
  let ?h = "\<lambda>k. (k, the (?m k))"
  let ?kvs = "range_map ?m ks"
  from assms(1) have ks: "distinct ks" "set ks = dom ?m" by (simp_all add: range_order_def)
  then have kvs: "?kvs = map ?h ks" by (simp add: range_map_eq)
  from assms(3) ks(2) have kin: "k \<in> set ks" by auto
  with assms(3) have "(k, raw) \<in> set ?kvs" by (auto simp: kvs image_iff)
  obtain srv w1 where fw: "f (transport_options (TLS s)) w = (srv, w1)"
    by (cases "f (transport_options (TLS s)) w")
  obtain r w2 evs where reg: "register srv ?kvs w1 = (r, w2, evs)"
    by (cases "register srv ?kvs w1")
  from register_offender_fails[OF \<open>(k, raw) \<in> set ?kvs\<close> assms(4), of srv w1] reg
  obtain e where e: "r = Some e" by auto
  then have "fst (register srv ?kvs w1) = Some e" by (simp add: reg)
  from register_error_shape[OF this] obtain pre' raw' post' where sh:
    "?kvs = pre' @ (error_name e, raw') # post'"
    "snd (snd (register srv ?kvs w1)) = map (\<lambda>kv. Attach (fst kv) None) pre' @ failed_call e"
    "e = NotGRPCCompatible (error_name e) \<and> raw' = OtherPlugin \<or>
      (\<exists>p t. e = RegisterError (error_name e) t \<and> raw' = GRPCPlugin p)"
    "\<not> always_attaches raw'" "\<forall>r \<in> snd ` set pre'. \<not> offends r"
    by (elim exE conjE)
  let ?k' = "error_name e"
  from sh(1) kvs have "map ?h ks = pre' @ (?k', raw') # post'" by simp
  then obtain pre rest where pr: "ks = pre @ rest" "pre' = map ?h pre" "(?k', raw') # post' = map ?h rest"
    by (auto simp: map_eq_append_conv)
  from pr(3) obtain z post where zp: "rest = z # post" "?h z = (?k', raw')" "post' = map ?h post"
    by (auto simp: Cons_eq_map_conv)
  from zp(2) have z: "z = ?k'" and raw': "raw' = the (?m ?k')" by auto
  have split: "ks = pre @ ?k' # post" by (simp add: pr(1) zp(1) z)
  then have "?k' \<in> set ks" by simp
  with ks(2) have mk': "?m ?k' = Some raw'" by (auto simp: raw')
  have knotpre: "k \<notin> set pre"
  proof
    assume "k \<in> set pre"
    then have "(k, raw) \<in> set pre'" using assms(3) by (auto simp: pr(2) image_iff)
    then have "raw \<in> snd ` set pre'" by force
    with sh(5) assms(4) show False by blast
  qed
  have res: "result (Init s ks w) = Returns (Some e)"
    by (simp add: Init_def assms(2) fw reg e)
  have "evs = map (\<lambda>kv. Attach (fst kv) None) pre' @ failed_call e"
    using sh(2) by (simp add: reg)
  then have evs: "evs = map (\<lambda>j. Attach j None) pre @ failed_call e"
    by (simp add: pr(2) comp_def)
  have cs: "calls (Init s ks w) =
      NewServer (transport_options (TLS s)) # map (\<lambda>j. Attach j None) pre @ failed_call e"
    by (simp add: Init_def assms(2) fw reg evs)
  have kind: "e = NotGRPCCompatible ?k' \<and> ?m ?k' = Some OtherPlugin \<or>
      (\<exists>p t. e = RegisterError ?k' t \<and> ?m ?k' = Some (GRPCPlugin p))"
    using sh(3) mk' by auto
  have fc: "set (failed_call e) \<subseteq> {ev. \<exists>t. ev = Attach ?k' t}"
    by (cases e) auto
  have after: "\<forall>j \<in> set post. \<forall>r. Attach j r \<notin> set (calls (Init s ks w))"
  proof (intro ballI allI notI)
    fix j r assume j: "j \<in> set post" and "Attach j r \<in> set (calls (Init s ks w))"
    then have "Attach j r \<in> set (map (\<lambda>j. Attach j None) pre) \<or> Attach j r \<in> set (failed_call e)"
      by (simp add: cs)
    then have "j \<in> set pre \<or> j = ?k'" using fc by auto
    with j ks(1) split show False by auto
  qed
  have first: "(\<forall>j \<in> set (takeWhile (\<lambda>j. j \<noteq> k) ks). \<exists>r. ?m j = Some r \<and> always_attaches r)
      \<longrightarrow> ?k' = k"
  proof (intro impI, rule ccontr)
    assume all: "\<forall>j \<in> set (takeWhile (\<lambda>j. j \<noteq> k) ks). \<exists>r. ?m j = Some r \<and> always_attaches r"
      and "?k' \<noteq> k"
    with knotpre have "?k' \<in> set (takeWhile (\<lambda>j. j \<noteq> k) ks)"
      unfolding split by (rule_tac takeWhile_reaches)
    with all mk' have "always_attaches raw'" by auto
    with sh(4) show False by simp
  qed
  from res sublist_Error_text[of q e] split knotpre kind cs after first
  show ?thesis by blast
qed

text \<open>
  The amended C1 at a map of three entries, the second of which is not a \<open>GRPCPlugin\<close>:
  the first is attached, the error names the second, the third is never called.
\<close>

theorem Init_fail_fast_witness:
  \<open>range_order (Plugins (bootstrap [''a'' \<mapsto> service_plugin ''A'', ''bad'' \<mapsto> OtherPlugin, ''c'' \<mapsto> failing_plugin] None)) [''a'', ''bad'', ''c''] \<and>
   Server (bootstrap [''a'' \<mapsto> service_plugin ''A'', ''bad'' \<mapsto> OtherPlugin, ''c'' \<mapsto> failing_plugin] None) = Some new_server \<and>
   Plugins (bootstrap [''a'' \<mapsto> service_plugin ''A'', ''bad'' \<mapsto> OtherPlugin, ''c'' \<mapsto> failing_plugin] None) ''bad'' = Some OtherPlugin \<and>
   offends (OtherPlugin :: string list plugin) \<and>
   result (Init (bootstrap [''a'' \<mapsto> service_plugin ''A'', ''bad'' \<mapsto> OtherPlugin, ''c'' \<mapsto> failing_plugin] None) [''a'', ''bad'', ''c''] []) = Returns (Some (NotGRPCCompatible ''bad'')) \<and>
   Error_text quote_plain (NotGRPCCompatible ''bad'') = ''"bad" is not a GRPC-compatibile plugin'' \<and>
   calls (Init (bootstrap [''a'' \<mapsto> service_plugin ''A'', ''bad'' \<mapsto> OtherPlugin, ''c'' \<mapsto> failing_plugin] None) [''a'', ''bad'', ''c''] []) = [NewServer [], Attach ''a'' None] \<and>
   world (Init (bootstrap [''a'' \<mapsto> service_plugin ''A'', ''bad'' \<mapsto> OtherPlugin, ''c'' \<mapsto> failing_plugin] None) [''a'', ''bad'', ''c''] []) = [''A'']\<close>
proof -
  let ?s = "bootstrap [''a'' \<mapsto> service_plugin ''A'', ''bad'' \<mapsto> OtherPlugin, ''c'' \<mapsto> failing_plugin] None"
  let ?ks = "[''a'', ''bad'', ''c'']"
  have h1: "range_order (Plugins ?s) ?ks"
    by (auto simp: range_order_def bootstrap_def split: if_splits)
  have h2: "Server ?s = Some new_server" by (simp add: bootstrap_def)
  have h3: "Plugins ?s ''bad'' = Some OtherPlugin" by (simp add: bootstrap_def)
  have h4: "offends (OtherPlugin :: string list plugin)" by (simp add: offends_def)
  from Init_fail_fast[OF h1 h2 h3 h4, where q = quote_plain and w = "[]"]
  obtain e k' pre post where c:
    "result (Init ?s ?ks []) = Returns (Some e)" "error_name e = k'"
    "?ks = pre @ k' # post" "''bad'' \<notin> set pre"
    "calls (Init ?s ?ks []) =
       NewServer (transport_options (TLS ?s)) # map (\<lambda>j. Attach j None) pre @ failed_call e"
    "(\<forall>j \<in> set (takeWhile (\<lambda>j. j \<noteq> ''bad'') ?ks).
        \<exists>r. Plugins ?s j = Some r \<and> always_attaches r) \<longrightarrow> k' = ''bad''"
    by (elim exE conjE)
  have "\<forall>j \<in> set (takeWhile (\<lambda>j. j \<noteq> ''bad'') ?ks). \<exists>r. Plugins ?s j = Some r \<and> always_attaches r"
    by (simp add: bootstrap_def always_attaches_def service_plugin_def)
  with c(6) have k': "k' = ''bad''" by blast
  from c(3) c(4) have pre: "pre = [''a'']"
    unfolding k' by (cases pre; cases "tl pre") auto
  from c(1,2) k' h3 have e: "e = NotGRPCCompatible ''bad''"
    by (cases e) (simp_all add: Init_def bootstrap_def range_map_def map_filter_simps
        new_server_def service_plugin_def)
  have t: \<open>Error_text quote_plain (NotGRPCCompatible ''bad'') = ''"bad" is not a GRPC-compatibile plugin''\<close>
    by (simp add: quote_plain_def)
  have w: "world (Init ?s ?ks []) = [''A'']"
    by (simp add: Init_def bootstrap_def range_map_def map_filter_simps new_server_def
        service_plugin_def)
  from c(5) have cs: "calls (Init ?s ?ks []) = [NewServer [], Attach ''a'' None]"
    by (simp add: pre e bootstrap_def transport_options_def)
  from h1 h2 h3 h4 c(1) e t cs w show ?thesis by simp
qed

text \<open>
  C2. Let every entry of the map be a \<open>GRPCPlugin\<close> whose attach operation returns a nil
  error, and let the state have a factory. Then \<open>Init\<close> returns a nil error; the server
  it keeps is the one the factory returned; and the calls it made on that server are
  one successful attach call for each key of the map, in the order of the range, and
  no other: each plugin name has been attached exactly once, and no other name has.
\<close>

theorem Init_registers_all:
  assumes "range_order (Plugins s) ks" and "Server s = Some f"
    and "\<forall>raw \<in> ran (Plugins s). always_attaches raw"
  shows "result (Init s ks w) = Returns None \<and>
         server (state (Init s ks w)) = fst (f (transport_options (TLS s)) w) \<and>
         calls (Init s ks w) =
           NewServer (transport_options (TLS s)) # map (\<lambda>k. Attach k None) ks \<and>
         (\<forall>k. count_list (calls (Init s ks w)) (Attach k None) =
               (if k \<in> dom (Plugins s) then 1 else 0))"
proof -
  let ?m = "Plugins s"
  let ?kvs = "range_map ?m ks"
  from assms(1) have ks: "distinct ks" "set ks = dom ?m" by (simp_all add: range_order_def)
  then have kvs: "?kvs = map (\<lambda>k. (k, the (?m k))) ks" by (simp add: range_map_eq)
  have "\<forall>raw \<in> snd ` set ?kvs. always_attaches raw"
  proof
    fix raw assume "raw \<in> snd ` set ?kvs"
    then obtain k where "k \<in> set ks" "raw = the (?m k)" by (auto simp: kvs)
    with ks(2) have "?m k = Some raw" by auto
    then have "raw \<in> ran ?m" by (rule ranI)
    with assms(3) show "always_attaches raw" by blast
  qed
  note ok = register_ok[OF this]
  obtain srv w1 where fw: "f (transport_options (TLS s)) w = (srv, w1)"
    by (cases "f (transport_options (TLS s)) w")
  obtain r w2 evs where reg: "register srv ?kvs w1 = (r, w2, evs)"
    by (cases "register srv ?kvs w1")
  from ok[of srv w1] reg have r: "r = None" and evs: "evs = map (\<lambda>kv. Attach (fst kv) None) ?kvs"
    by simp_all
  have evs': "evs = map (\<lambda>k. Attach k None) ks" by (simp add: evs kvs comp_def)
  have res: "result (Init s ks w) = Returns None"
    by (simp add: Init_def assms(2) fw reg r)
  have srv: "server (state (Init s ks w)) = fst (f (transport_options (TLS s)) w)"
    by (simp add: Init_def assms(2) fw reg)
  have cs: "calls (Init s ks w) = NewServer (transport_options (TLS s)) # map (\<lambda>k. Attach k None) ks"
    by (simp add: Init_def assms(2) fw reg evs')
  have "count_list (calls (Init s ks w)) (Attach k None) = (if k \<in> dom ?m then 1 else 0)" for k
    by (simp add: cs count_list_Attach count_list_distinct ks)
  with res srv cs show ?thesis by blast
qed

text \<open>C2 at a map of two plugins, each of which registers one service.\<close>

theorem Init_registers_all_witness:
  "range_order (Plugins (bootstrap [''echo'' \<mapsto> service_plugin ''Echo'', ''kv'' \<mapsto> service_plugin ''KV''] None)) [''kv'', ''echo''] \<and>
   result (Init (bootstrap [''echo'' \<mapsto> service_plugin ''Echo'', ''kv'' \<mapsto> service_plugin ''KV''] None) [''kv'', ''echo''] []) = Returns None \<and>
   calls (Init (bootstrap [''echo'' \<mapsto> service_plugin ''Echo'', ''kv'' \<mapsto> service_plugin ''KV''] None) [''kv'', ''echo''] []) =
     [NewServer [], Attach ''kv'' None, Attach ''echo'' None] \<and>
   world (Init (bootstrap [''echo'' \<mapsto> service_plugin ''Echo'', ''kv'' \<mapsto> service_plugin ''KV''] None) [''kv'', ''echo''] []) = [''KV'', ''Echo'']"
proof -
  let ?s = "bootstrap [''echo'' \<mapsto> service_plugin ''Echo'', ''kv'' \<mapsto> service_plugin ''KV''] None"
  have h1: "range_order (Plugins ?s) [''kv'', ''echo'']"
    by (auto simp: range_order_def bootstrap_def)
  have h2: "Server ?s = Some new_server" by (simp add: bootstrap_def)
  have h3: "\<forall>raw \<in> ran (Plugins ?s). always_attaches raw"
    by (auto simp: bootstrap_def ran_def always_attaches_def service_plugin_def split: if_splits)
  have w: "world (Init ?s [''kv'', ''echo''] []) = [''KV'', ''Echo'']"
    by (simp add: Init_def bootstrap_def range_map_def map_filter_simps new_server_def service_plugin_def)
  from Init_registers_all[OF h1 h2 h3, of "[]"] h1 w show ?thesis
    by (simp add: bootstrap_def transport_options_def)
qed

text \<open>
  C5, as the claim states it, fails: with a single plugin that is not a \<open>GRPCPlugin\<close>,
  \<open>Init\<close> returns the error of line 70, and the field \<open>server\<close>, nil before the call,
  holds the pointer the factory returned at line 64.
\<close>

theorem Init_failure_keeps_server:
  "server (bootstrap [''bad'' \<mapsto> OtherPlugin] None) = None \<and>
   result (Init (bootstrap [''bad'' \<mapsto> OtherPlugin] None) [''bad''] []) =
     Returns (Some (NotGRPCCompatible ''bad'')) \<and>
   server (state (Init (bootstrap [''bad'' \<mapsto> OtherPlugin] None) [''bad''] [])) = Some 1"
  by (simp add: Init_def bootstrap_def range_map_def map_filter_simps new_server_def)

text \<open>
  C5, amended. \<open>Init\<close> assigns the field \<open>server\<close> once, from the factory, before it
  registers any plugin. So whenever \<open>Init\<close> returns, with a nil error or with an error,
  the field holds the pointer the factory returned for the transport options (not nil
  when the factory returns a pointer that is not nil), and a failed registration does
  not set it back. The field keeps the value it had before the call only when the
  factory is nil and \<open>Init\<close> panics.
\<close>

theorem Init_server_assigned:
  "(Server s = None \<longrightarrow>
      result (Init s ks w) = Panics NilFunctionCall \<and> server (state (Init s ks w)) = server s) \<and>
   (\<forall>f. Server s = Some f \<longrightarrow>
      (\<exists>r. result (Init s ks w) = Returns r) \<and>
      server (state (Init s ks w)) = fst (f (transport_options (TLS s)) w))"
  by (simp add: Init_def split: prod.split)

text \<open>
  The amended C5 at a state whose only plugin returns an error, and at a state with a
  nil factory.
\<close>

theorem Init_server_assigned_witness:
  "Server (bootstrap [''bad'' \<mapsto> failing_plugin] None) = Some new_server \<and>
   result (Init (bootstrap [''bad'' \<mapsto> failing_plugin] None) [''bad''] []) =
     Returns (Some (RegisterError ''bad'' ''boom'')) \<and>
   server (state (Init (bootstrap [''bad'' \<mapsto> failing_plugin] None) [''bad''] [])) = Some 1 \<and>
   Server ((bootstrap Map.empty None)\<lparr>Server := None\<rparr>) = None \<and>
   result (Init ((bootstrap Map.empty None)\<lparr>Server := None\<rparr>) [] []) = Panics NilFunctionCall \<and>
   server (state (Init ((bootstrap Map.empty None)\<lparr>Server := None\<rparr>) [] [])) = None"
  using Init_server_assigned[of "bootstrap [''bad'' \<mapsto> failing_plugin] None" "[''bad'']" "[]"]
    Init_server_assigned[of "(bootstrap Map.empty None)\<lparr>Server := None\<rparr>" "[]" "[]"]
  by (simp add: bootstrap_def new_server_def Init_def range_map_def map_filter_simps
      failing_plugin_def)

text \<open>
  C6. For every state with a factory, the first call \<open>Init\<close> makes is the call of the
  factory, and it is the only such call: every later call is an attach call. The
  options it passes are none when \<open>TLS\<close> is nil and exactly the one option
  \<open>grpc.Creds(credentials.NewTLS(s.TLS))\<close> when it is not; computing them cannot fail
  (\<open>transport_options\<close> is a list in both cases), and the server \<open>Init\<close> keeps is the
  one the factory made from these options.
\<close>

theorem Init_transport_options:
  assumes "Server s = Some f"
  shows "\<exists>evs. calls (Init s ks w) = NewServer (transport_options (TLS s)) # evs \<and>
           (\<forall>ev \<in> set evs. \<exists>k r. ev = Attach k r) \<and>
           (TLS s = None \<longrightarrow> transport_options (TLS s) = []) \<and>
           (\<forall>c. TLS s = Some c \<longrightarrow> transport_options (TLS s) = [Creds (NewTLS c)]) \<and>
           server (state (Init s ks w)) = fst (f (transport_options (TLS s)) w)"
proof -
  obtain srv w1 where fw: "f (transport_options (TLS s)) w = (srv, w1)"
    by (cases "f (transport_options (TLS s)) w")
  obtain r w2 evs where reg: "register srv (range_map (Plugins s) ks) w1 = (r, w2, evs)"
    by (cases "register srv (range_map (Plugins s) ks) w1")
  have "calls (Init s ks w) = NewServer (transport_options (TLS s)) # evs"
    by (simp add: Init_def assms fw reg)
  moreover have "\<forall>ev \<in> set evs. \<exists>k r. ev = Attach k r"
  proof
    fix ev assume "ev \<in> set evs"
    then have "ev \<in> set (snd (snd (register srv (range_map (Plugins s) ks) w1)))"
      by (simp add: reg)
    then show "\<exists>k r. ev = Attach k r" by (rule register_calls_attach)
  qed
  moreover have "TLS s = None \<longrightarrow> transport_options (TLS s) = []"
    by (simp add: transport_options_def)
  moreover have "\<forall>c. TLS s = Some c \<longrightarrow> transport_options (TLS s) = [Creds (NewTLS c)]"
    by (simp add: transport_options_def)
  moreover have "server (state (Init s ks w)) = fst (f (transport_options (TLS s)) w)"
    by (simp add: Init_def assms fw reg)
  ultimately show ?thesis by (intro exI[of _ evs] conjI)
qed

text \<open>C6 at a state without a TLS configuration and at one with the configuration 7.\<close>

theorem Init_transport_options_witness:
  "Server (bootstrap [''echo'' \<mapsto> service_plugin ''Echo''] None) = Some new_server \<and>
   calls (Init (bootstrap [''echo'' \<mapsto> service_plugin ''Echo''] None) [''echo''] []) =
     [NewServer [], Attach ''echo'' None] \<and>
   Server (bootstrap [''echo'' \<mapsto> service_plugin ''Echo''] (Some 7)) = Some new_server \<and>
   calls (Init (bootstrap [''echo'' \<mapsto> service_plugin ''Echo''] (Some 7)) [''echo''] []) =
     [NewServer [Creds (NewTLS 7)], Attach ''echo'' None]"
proof -
  let ?p = "[''echo'' \<mapsto> service_plugin ''Echo'']"
  have h: "Server (bootstrap ?p tls) = Some new_server" for tls by (simp add: bootstrap_def)
  have c: "calls (Init (bootstrap ?p tls) [''echo''] []) =
      [NewServer (transport_options tls), Attach ''echo'' None]" for tls
    by (simp add: Init_def bootstrap_def range_map_def map_filter_simps new_server_def
        service_plugin_def)
  from Init_transport_options[OF h[of None], of "[''echo'']" "[]"]
    Init_transport_options[OF h[of "Some 7"], of "[''echo'']" "[]"]
  have "transport_options None = []" "transport_options (Some 7) = [Creds (NewTLS 7)]"
    by (auto simp: bootstrap_def)
  with h c show ?thesis by simp
qed

text \<open>
  C10. Whatever the state, the order of the range and the outcome (a nil error, an
  error or a panic), the state \<open>Init\<close> leaves is the state it was given with at most
  the field \<open>server\<close> assigned: \<open>Plugins\<close>, \<open>Server\<close>, \<open>TLS\<close>, \<open>DoneCh\<close>, \<open>Stdout\<close>,
  \<open>Stderr\<close> and \<open>config\<close> are the same.
\<close>

theorem Init_frame:
  "state (Init s ks w) = s\<lparr>server := server (state (Init s ks w))\<rparr> \<and>
   Plugins (state (Init s ks w)) = Plugins s \<and>
   Server (state (Init s ks w)) = Server s \<and>
   TLS (state (Init s ks w)) = TLS s \<and>
   DoneCh (state (Init s ks w)) = DoneCh s \<and>
   Stdout (state (Init s ks w)) = Stdout s \<and>
   Stderr (state (Init s ks w)) = Stderr s \<and>
   config (state (Init s ks w)) = config s"
  by (simp add: Init_def split: option.split prod.split)

section \<open>Properties of Config\<close>

subsection \<open>What Config returns\<close>

lemma appendString_stdout_addr: \<open>appendString ''stdout_addr'' = ''"stdout_addr"''\<close>
  by (simp add: appendString_def htmlSafeSet_def)

lemma appendString_stderr_addr: \<open>appendString ''stderr_addr'' = ''"stderr_addr"''\<close>
  by (simp add: appendString_def htmlSafeSet_def)

lemma marshal_GRPCServerConfig:
  \<open>marshal (GRPCServerConfig_value c) =
     Inr (''{"stdout_addr":'' @ appendString (StdoutAddr c) @
          '',"stderr_addr":'' @ appendString (StderrAddr c) @ ''}'')\<close>
  by (simp add: GRPCServerConfig_value_def appendString_stdout_addr appendString_stderr_addr)

lemma Config_eq:
  \<open>Config s =
     (Returns (''{"stdout_addr":'' @ appendString (StdoutAddr (config s)) @
               '',"stderr_addr":'' @ appendString (StderrAddr (config s)) @ ''}'' @ [CHR 0x0A]), s)\<close>
  by (simp add: Config_def Encode_def marshal_GRPCServerConfig)

subsection \<open>Decoding what the encoder wrote\<close>

lemma hex_value_hex: "d < 16 \<Longrightarrow> hex_value (hex ! d) = Some d"
proof -
  assume "d < 16"
  then have "d \<in> {0,1,2,3,4,5,6,7,8,9,10,11,12,13,14,15}" by simp arith
  then show ?thesis
    by (elim insertE emptyE) (simp_all add: hex_def hex_value_def)
qed

lemma unquote_copy:
  "0x20 \<le> (of_char c :: nat) \<Longrightarrow> c \<noteq> CHR 0x22 \<Longrightarrow> c \<noteq> CHR 0x5C \<Longrightarrow>
   unquote (c # t) = map_option (\<lambda>(x, r). (c # x, r)) (unquote t)"
  by simp

lemma unquote_copy_high:
  "\<forall>b \<in> set bs. 0x80 \<le> (of_char b :: nat) \<Longrightarrow>
   unquote (bs @ t) = map_option (\<lambda>(x, r). (bs @ x, r)) (unquote t)"
proof (induction bs)
  case Nil
  show ?case by (simp add: option.map_ident)
next
  case (Cons b bs)
  then have b: "0x80 \<le> (of_char b :: nat)" by simp
  then have "b \<noteq> CHR 0x22" "b \<noteq> CHR 0x5C" "0x20 \<le> (of_char b :: nat)" by auto
  then have "unquote (b # bs @ t) = map_option (\<lambda>(x, r). (b # x, r)) (unquote (bs @ t))"
    by (rule_tac unquote_copy)
  with Cons show ?case
    by (simp add: option.map_comp comp_def split_def)
qed


lemma getu4_00:
  "n < 256 \<Longrightarrow> getu4 (CHR ''0'' # CHR ''0'' # hex ! (n div 16) # hex ! (n mod 16) # t) = Some n"
proof -
  assume n: "n < 256"
  then have "n div 16 < 16" by simp
  then have a: "hex_value (hex ! (n div 16)) = Some (n div 16)" by (rule hex_value_hex)
  have b: "hex_value (hex ! (n mod 16)) = Some (n mod 16)" by (rule hex_value_hex) simp
  have z: "hex_value (CHR ''0'') = Some 0" by (simp add: hex_value_def)
  show ?thesis by (simp add: getu4_def a b z)
qed

lemma unquote_u00:
  assumes "n < 0x80"
  shows "unquote (CHR 0x5C # CHR ''u'' # CHR ''0'' # CHR ''0'' # hex ! (n div 16) # hex ! (n mod 16) # t) =
         map_option (\<lambda>(x, r). (char_of n # x, r)) (unquote t)"
proof -
  from assms have "n < 256" by simp
  note g = getu4_00[OF this, of t]
  from assms have e: "EncodeRune n = [char_of n]" by (simp add: EncodeRune_def)
  show ?thesis using assms by (simp add: g e)
qed


lemma unquote_escape_byte:
  assumes "(of_char c :: nat) < 0x80"
  shows "unquote (escape_byte c @ t) = map_option (\<lambda>(x, r). (c # x, r)) (unquote t)"
proof -
  consider "c = CHR 0x5C" | "c = CHR 0x22" | "c = CHR 0x08" | "c = CHR 0x0C" | "c = CHR 0x0A"
    | "c = CHR 0x0D" | "c = CHR 0x09"
    | "c \<noteq> CHR 0x5C" "c \<noteq> CHR 0x22" "c \<noteq> CHR 0x08" "c \<noteq> CHR 0x0C" "c \<noteq> CHR 0x0A"
      "c \<noteq> CHR 0x0D" "c \<noteq> CHR 0x09"
    by blast
  then show ?thesis
  proof cases
    case 8
    then have "escape_byte c @ t =
        CHR 0x5C # CHR ''u'' # CHR ''0'' # CHR ''0'' #
        hex ! ((of_char c :: nat) div 16) # hex ! ((of_char c :: nat) mod 16) # t"
      by (simp add: escape_byte_def)
    with unquote_u00[OF assms, of t] show ?thesis by simp
  qed (simp_all add: escape_byte_def simple_escape_def)
qed

lemma DecodeRune_valid:
  assumes "DecodeRuneInString (take 4 (c # cs)) = (r, n)"
    and "0x80 \<le> (of_char c :: nat)" and "\<not> (r = RuneError \<and> n = 1)"
  shows "1 \<le> n \<and> n - 1 \<le> length cs \<and> (\<forall>b \<in> set (take (n - 1) cs). 0x80 \<le> (of_char b :: nat))"
proof -
  consider "cs = []" | a where "cs = [a]" | a b where "cs = [a, b]"
    | a b d rest where "cs = a # b # d # rest"
    by (cases cs; cases "tl cs"; cases "tl (tl cs)") auto
  then show ?thesis
  proof cases
    case 1
    with assms show ?thesis
      by (auto simp: DecodeRuneInString_def Let_def split: if_splits)
  next
    case 2
    with assms show ?thesis
      by (auto simp: DecodeRuneInString_def Let_def split: if_splits)
  next
    case 3
    with assms show ?thesis
      by (auto simp: DecodeRuneInString_def Let_def split: if_splits)
  next
    case 4
    with assms show ?thesis
      by (auto simp: DecodeRuneInString_def Let_def split: if_splits)
  qed
qed

lemma mod_window:
  fixes m b q :: nat
  assumes "b * q \<le> m" "m < b * Suc q"
  shows "m mod b = m - b * q"
proof -
  from assms have "m div b = q" by (rule div_nat_eqI)
  then have "b * q + m mod b = m" using mult_div_mod_eq[of b m] by simp
  then show ?thesis by linarith
qed

lemma rune3_line_separator:
  fixes s0 s1 s2 :: nat
  assumes r: "(s0 mod 16) * 4096 + (s1 mod 64) * 64 + s2 mod 64 = r"
    and "r = 0x2028 \<or> r = 0x2029"
    and b: "0xE0 \<le> s0" "s0 < 0xF0" "0x80 \<le> s1" "s1 \<le> 0xBF" "0x80 \<le> s2" "s2 \<le> 0xBF"
  shows "s0 = 0xE2 \<and> s1 = 0x80 \<and> s2 = 0x80 + (r - 0x2000)"
proof -
  have x: "s0 mod 16 = s0 - 16 * 14" using b by (intro mod_window) simp_all
  have y: "s1 mod 64 = s1 - 64 * 2" using b by (intro mod_window) simp_all
  have z: "s2 mod 64 = s2 - 64 * 2" using b by (intro mod_window) simp_all
  from r have eq: "(s0 - 224) * 4096 + (s1 - 128) * 64 + (s2 - 128) = r"
    by (simp add: x y z)
  consider "s0 \<le> 225" | "s0 = 226" | "227 \<le> s0" by linarith
  then have s0: "s0 = 226"
  proof cases
    case 1
    with eq assms(2) b show ?thesis by linarith
  next
    case 2
    then show ?thesis .
  next
    case 3
    with eq assms(2) b show ?thesis by linarith
  qed
  consider "s1 = 128" | "129 \<le> s1" using b by linarith
  then have s1: "s1 = 128"
  proof cases
    case 1
    then show ?thesis .
  next
    case 2
    with eq assms(2) b s0 show ?thesis by linarith
  qed
  from eq assms(2) b s0 s1 have "s2 = 0x80 + (r - 0x2000)" by linarith
  with s0 s1 show ?thesis by simp
qed

lemma rune2_small:
  fixes s0 s1 :: nat
  shows "(s0 mod 32) * 64 + s1 mod 64 < 0x2028"
proof -
  have "s0 mod 32 < 32" "s1 mod 64 < 64" by simp_all
  then show ?thesis by linarith
qed

lemma rune4_big:
  fixes s0 s1 s2 s3 :: nat
  assumes "0xF0 \<le> s0" "s0 \<le> 0xF4" "(if s0 = 0xF0 then 0x90 else 0x80) \<le> s1" "s1 \<le> 0xBF"
  shows "0x2029 < (s0 mod 8) * 262144 + (s1 mod 64) * 4096 + (s2 mod 64) * 64 + s3 mod 64"
proof -
  have x: "s0 mod 8 = s0 - 8 * 30" using assms by (intro mod_window) simp_all
  have "0x80 \<le> s1" using assms(3) by (simp split: if_splits)
  then have y: "s1 mod 64 = s1 - 64 * 2" using assms by (intro mod_window) simp_all
  show ?thesis
  proof (cases "s0 = 0xF0")
    case True
    with assms(3) have "16 \<le> s1 mod 64" by (simp add: y)
    then have "65536 \<le> (s1 mod 64) * 4096" by simp
    then show ?thesis by linarith
  next
    case False
    with assms have "1 \<le> s0 mod 8" by (simp add: x)
    then have "262144 \<le> (s0 mod 8) * 262144" by simp
    then show ?thesis by linarith
  qed
qed


lemma DecodeRune_cases:
  assumes "DecodeRuneInString (take 4 (c # cs)) = (r, n)" and "0x80 \<le> (of_char c :: nat)"
  shows "(r = RuneError \<and> n = 1) \<or>
    (\<exists>a rest. cs = a # rest \<and> n = 2 \<and>
       r = ((of_char c :: nat) mod 32) * 64 + (of_char a :: nat) mod 64) \<or>
    (\<exists>a b rest. cs = a # b # rest \<and> n = 3 \<and>
       0xE0 \<le> (of_char c :: nat) \<and> (of_char c :: nat) < 0xF0 \<and>
       0x80 \<le> (of_char a :: nat) \<and> (of_char a :: nat) \<le> 0xBF \<and>
       0x80 \<le> (of_char b :: nat) \<and> (of_char b :: nat) \<le> 0xBF \<and>
       r = ((of_char c :: nat) mod 16) * 4096 + ((of_char a :: nat) mod 64) * 64 + (of_char b :: nat) mod 64) \<or>
    (\<exists>a b d rest. cs = a # b # d # rest \<and> n = 4 \<and>
       0xF0 \<le> (of_char c :: nat) \<and> (of_char c :: nat) \<le> 0xF4 \<and>
       (if (of_char c :: nat) = 0xF0 then 0x90 else 0x80) \<le> (of_char a :: nat) \<and>
       (of_char a :: nat) \<le> 0xBF \<and>
       r = ((of_char c :: nat) mod 8) * 262144 + ((of_char a :: nat) mod 64) * 4096 +
           ((of_char b :: nat) mod 64) * 64 + (of_char d :: nat) mod 64)"
proof -
  consider "cs = []" | a where "cs = [a]" | a b where "cs = [a, b]"
    | a b d rest where "cs = a # b # d # rest"
    by (cases cs; cases "tl cs"; cases "tl (tl cs)") auto
  then show ?thesis
  proof cases
    case 1
    with assms show ?thesis
      by (auto simp: DecodeRuneInString_def Let_def split: if_splits)
  next
    case 2
    with assms show ?thesis
      by (auto simp: DecodeRuneInString_def Let_def split: if_splits)
  next
    case 3
    with assms show ?thesis
      by (auto simp: DecodeRuneInString_def Let_def split: if_splits)
  next
    case 4
    with assms show ?thesis
      by (auto simp: DecodeRuneInString_def Let_def split: if_splits)
  qed
qed

lemma char_of_byte: "(of_char c :: nat) = n \<Longrightarrow> c = char_of n"
  by auto

lemma DecodeRune_line_separator:
  assumes d: "DecodeRuneInString (take 4 (c # cs)) = (r, n)" and c: "0x80 \<le> (of_char c :: nat)"
    and r: "r = 0x2028 \<or> r = 0x2029"
  shows "n = 3 \<and> c # take 2 cs = [char_of (0xE2 :: nat), char_of (0x80 :: nat), char_of (0x80 + (r - 0x2000))]"
proof -
  from r have ne: "r \<noteq> RuneError" by (auto simp: RuneError_def)
  from DecodeRune_cases[OF d c] ne consider
      (two) a rest where "cs = a # rest" "n = 2"
        "r = ((of_char c :: nat) mod 32) * 64 + (of_char a :: nat) mod 64"
    | (three) a b rest where "cs = a # b # rest" "n = 3"
        "0xE0 \<le> (of_char c :: nat)" "(of_char c :: nat) < 0xF0"
        "0x80 \<le> (of_char a :: nat)" "(of_char a :: nat) \<le> 0xBF"
        "0x80 \<le> (of_char b :: nat)" "(of_char b :: nat) \<le> 0xBF"
        "r = ((of_char c :: nat) mod 16) * 4096 + ((of_char a :: nat) mod 64) * 64 + (of_char b :: nat) mod 64"
    | (four) a b e rest where "cs = a # b # e # rest" "n = 4"
        "0xF0 \<le> (of_char c :: nat)" "(of_char c :: nat) \<le> 0xF4"
        "(if (of_char c :: nat) = 0xF0 then 0x90 else 0x80) \<le> (of_char a :: nat)"
        "(of_char a :: nat) \<le> 0xBF"
        "r = ((of_char c :: nat) mod 8) * 262144 + ((of_char a :: nat) mod 64) * 4096 +
           ((of_char b :: nat) mod 64) * 64 + (of_char e :: nat) mod 64"
    by blast
  then show ?thesis
  proof cases
    case two
    from rune2_small[of "of_char c" "of_char a"] two(3) r show ?thesis by linarith
  next
    case three
    from rune3_line_separator[OF three(9)[symmetric] r three(3-8)]
    have "(of_char c :: nat) = 0xE2" "(of_char a :: nat) = 0x80"
      "(of_char b :: nat) = 0x80 + (r - 0x2000)" by simp_all
    then have "c = char_of (0xE2 :: nat)" "a = char_of (0x80 :: nat)"
      "b = char_of (0x80 + (r - 0x2000))"
      by (simp_all only: char_of_byte)
    then show ?thesis by (simp add: three(1,2))
  next
    case four
    from rune4_big[OF four(3-6), of "of_char b" "of_char e"] four(7) r show ?thesis by linarith
  qed
qed

lemma unquote_line_separator:
  assumes "r = 0x2028 \<or> r = 0x2029"
  shows "unquote (CHR 0x5C # CHR ''u'' # CHR ''2'' # CHR ''0'' # CHR ''2'' # hex ! (r mod 16) # t) =
         map_option (\<lambda>(x, rest). ([char_of (0xE2 :: nat), char_of (0x80 :: nat), char_of (0x80 + (r - 0x2000))] @ x, rest))
           (unquote t)"
  using assms
  by (auto simp: getu4_def hex_value_def hex_def EncodeRune_def)

lemma unquote_appendString_loop:
  "ValidString s \<Longrightarrow> unquote (appendString_loop s @ CHR 0x22 # rest) = Some (s, rest)"
proof (induction s rule: length_induct)
  case (1 s)
  show ?case
  proof (cases s)
    case Nil
    then show ?thesis by simp
  next
    case (Cons c cs)
    show ?thesis
    proof (cases "(of_char c :: nat) < 0x80")
      case True
      with "1.prems" Cons have "ValidString cs" by simp
      with "1.IH" Cons have IH: "unquote (appendString_loop cs @ CHR 0x22 # rest) = Some (cs, rest)"
        by simp
      show ?thesis
      proof (cases "htmlSafeSet c")
        case safe: True
        then have "0x20 \<le> (of_char c :: nat)" "c \<noteq> CHR 0x22" "c \<noteq> CHR 0x5C"
          by (simp_all add: htmlSafeSet_def)
        from unquote_copy[OF this, of "appendString_loop cs @ CHR 0x22 # rest"] IH
        show ?thesis by (simp add: Cons True safe)
      next
        case unsafe: False
        from unquote_escape_byte[OF True, of "appendString_loop cs @ CHR 0x22 # rest"] IH
        show ?thesis by (simp add: Cons True unsafe)
      qed
    next
      case False
      then have hi: "0x80 \<le> (of_char c :: nat)" by simp
      obtain r n where d: "DecodeRuneInString (take 4 (c # cs)) = (r, n)"
        by (cases "DecodeRuneInString (take 4 (c # cs))")
      from "1.prems" Cons False d have ok: "\<not> (r = RuneError \<and> n = 1)"
        and v: "ValidString (drop (n - 1) cs)" by simp_all
      from "1.IH" Cons v have IH:
        "unquote (appendString_loop (drop (n - 1) cs) @ CHR 0x22 # rest) = Some (drop (n - 1) cs, rest)"
        by simp
      show ?thesis
      proof (cases "r = 0x2028 \<or> r = 0x2029")
        case sep: True
        from DecodeRune_line_separator[OF d hi sep]
        have n: "n = 3"
          and bytes: "c # take 2 cs = [char_of (0xE2 :: nat), char_of (0x80 :: nat), char_of (0x80 + (r - 0x2000))]"
          by simp_all
        have "appendString_loop s @ CHR 0x22 # rest =
            CHR 0x5C # CHR ''u'' # CHR ''2'' # CHR ''0'' # CHR ''2'' # hex ! (r mod 16) #
            (appendString_loop (drop (n - 1) cs) @ CHR 0x22 # rest)"
          using Cons False d ok sep by simp
        then have "unquote (appendString_loop s @ CHR 0x22 # rest) =
            Some ((c # take 2 cs) @ drop 2 cs, rest)"
          using unquote_line_separator[OF sep] IH by (simp add: bytes n)
        then show ?thesis by (simp add: Cons)
      next
        case nosep: False
        from DecodeRune_valid[OF d hi ok] have n1: "1 \<le> n"
          and high: "\<forall>b \<in> set (take (n - 1) cs). 0x80 \<le> (of_char b :: nat)" by simp_all
        from n1 have tk: "take n (c # cs) = c # take (n - 1) cs" by (cases n) simp_all
        with hi high have allhigh: "\<forall>b \<in> set (take n (c # cs)). 0x80 \<le> (of_char b :: nat)" by simp
        have "appendString_loop s @ CHR 0x22 # rest =
            take n (c # cs) @ (appendString_loop (drop (n - 1) cs) @ CHR 0x22 # rest)"
          using Cons False d ok nosep by simp
        then have "unquote (appendString_loop s @ CHR 0x22 # rest) =
            Some (take n (c # cs) @ drop (n - 1) cs, rest)"
          using unquote_copy_high[OF allhigh] IH by simp
        then show ?thesis by (simp add: Cons tk)
      qed
    qed
  qed
qed

lemma parse_string_appendString:
  "ValidString x \<Longrightarrow> parse_string (appendString x @ rest) = Some (x, rest)"
  by (simp add: parse_string_def appendString_def skip_space_def is_space_def
      unquote_appendString_loop)

lemma parse_member_appendString:
  assumes "ValidString k" "ValidString v"
  shows "parse_member (appendString k @ CHR '':'' # appendString v @ rest) = Some ((k, v), rest)"
proof -
  have 1: "parse_string (appendString k @ CHR '':'' # appendString v @ rest) =
      Some (k, CHR '':'' # appendString v @ rest)"
    by (rule parse_string_appendString[OF assms(1)])
  have 2: "expect (CHR '':'') (CHR '':'' # appendString v @ rest) = Some (appendString v @ rest)"
    by (simp add: expect_def skip_space_def is_space_def)
  have 3: "parse_string (appendString v @ rest) = Some (v, rest)"
    by (rule parse_string_appendString[OF assms(2)])
  show ?thesis by (simp add: parse_member_def 1 2 3)
qed

lemma ValidString_names: "ValidString ''stdout_addr''" "ValidString ''stderr_addr''"
  by simp_all

lemma marshal_GRPCServerConfig_raw:
  "marshal (GRPCServerConfig_value c) =
     Inr (CHR ''{'' # appendString ''stdout_addr'' @ CHR '':'' # appendString (StdoutAddr c) @
          CHR '','' # appendString ''stderr_addr'' @ CHR '':'' # appendString (StderrAddr c) @ ''}'')"
  by (simp add: GRPCServerConfig_value_def)

lemma parse_Config_output:
  assumes "ValidString a" "ValidString b"
  shows "parse_GRPCServerConfig
     (CHR ''{'' # appendString ''stdout_addr'' @ CHR '':'' # appendString a @
      CHR '','' # appendString ''stderr_addr'' @ CHR '':'' # appendString b @ [CHR ''}'', CHR 0x0A]) =
     Some \<lparr>StdoutAddr = a, StderrAddr = b\<rparr>"
proof -
  let ?R = "CHR '','' # appendString ''stderr_addr'' @ CHR '':'' # appendString b @ [CHR ''}'', CHR 0x0A]"
  let ?S = "appendString ''stdout_addr'' @ CHR '':'' # appendString a @ ?R"
  have e: "expect (CHR ''{'') (CHR ''{'' # ?S) = Some ?S"
    by (simp add: expect_def skip_space_def is_space_def)
  have sk: "skip_space ?S = CHR 0x22 # tl ?S"
    by (simp add: skip_space_def is_space_def appendString_def)
  have m1: "parse_member ?S = Some ((''stdout_addr'', a), ?R)"
    by (rule parse_member_appendString[OF ValidString_names(1) assms(1)])
  have m2: "parse_member (appendString ''stderr_addr'' @ CHR '':'' # appendString b @ [CHR ''}'', CHR 0x0A]) =
      Some ((''stderr_addr'', b), [CHR ''}'', CHR 0x0A])"
    by (rule parse_member_appendString[OF ValidString_names(2) assms(2)])
  obtain n where n: "length ?R = Suc (Suc n)"
    by (simp add: appendString_def)
  have ms: "parse_members (length ?R) ?R = Some ([(''stderr_addr'', b)], [CHR 0x0A])"
    unfolding n by (simp add: skip_space_def is_space_def m2)
  have po: "parse_object (CHR ''{'' # ?S) =
      Some ([(''stdout_addr'', a), (''stderr_addr'', b)], [CHR 0x0A])"
    by (simp only: parse_object_def e option.case sk list.case m1 prod.case ms) simp
  show ?thesis
    by (simp only: parse_GRPCServerConfig_def po option.case prod.case)
      (simp add: skip_space_def is_space_def field_def)
qed

lemma Config_raw:
  "Config s =
     (Returns (CHR ''{'' # appendString ''stdout_addr'' @ CHR '':'' # appendString (StdoutAddr (config s)) @
        CHR '','' # appendString ''stderr_addr'' @ CHR '':'' # appendString (StderrAddr (config s)) @
        [CHR ''}'', CHR 0x0A]), s)"
  by (simp add: Config_def Encode_def marshal_GRPCServerConfig_raw)

subsection \<open>The claims about Config\<close>

text \<open>
  C3, as the claim states it, fails on a string that is not valid UTF-8: the encoder
  writes the byte \<open>0xFF\<close> as the escape of U+FFFD, as it writes the byte \<open>0xFE\<close>. Two
  different configurations give the same payload, so no decoding gives back both; the
  parse of the payload gives the three bytes of U+FFFD, not the original byte.
\<close>

theorem Config_loses_invalid_utf8:
  \<open>fst (Config (config_state [CHR 0xFF] [])) =
     Returns (''{"stdout_addr":"'' @ [CHR 0x5C] @ ''ufffd","stderr_addr":""}'' @ [CHR 0x0A]) \<and>
   fst (Config (config_state [CHR 0xFE] [])) = fst (Config (config_state [CHR 0xFF] [])) \<and>
   config (config_state [CHR 0xFE] []) \<noteq> config (config_state [CHR 0xFF] []) \<and>
   parse_GRPCServerConfig
     (''{"stdout_addr":"'' @ [CHR 0x5C] @ ''ufffd","stderr_addr":""}'' @ [CHR 0x0A]) =
     Some \<lparr>StdoutAddr = [CHR 0xEF, CHR 0xBF, CHR 0xBD], StderrAddr = []\<rparr> \<and>
   \<lparr>StdoutAddr = [CHR 0xEF, CHR 0xBF, CHR 0xBD], StderrAddr = []\<rparr> \<noteq> config (config_state [CHR 0xFF] [])\<close>
proof -
  have 1: \<open>fst (Config (config_state [CHR 0xFF] [])) =
     Returns (''{"stdout_addr":"'' @ [CHR 0x5C] @ ''ufffd","stderr_addr":""}'' @ [CHR 0x0A])\<close>
    by (simp add: Config_raw config_state_def appendString_def htmlSafeSet_def
        DecodeRuneInString_def RuneError_def Let_def)
  have 2: \<open>fst (Config (config_state [CHR 0xFE] [])) =
     Returns (''{"stdout_addr":"'' @ [CHR 0x5C] @ ''ufffd","stderr_addr":""}'' @ [CHR 0x0A])\<close>
    by (simp add: Config_raw config_state_def appendString_def htmlSafeSet_def
        DecodeRuneInString_def RuneError_def Let_def)
  have 3: "config (config_state [CHR 0xFE] []) \<noteq> config (config_state [CHR 0xFF] [])"
    by (simp add: config_state_def)
  have 4: \<open>parse_GRPCServerConfig
     (''{"stdout_addr":"'' @ [CHR 0x5C] @ ''ufffd","stderr_addr":""}'' @ [CHR 0x0A]) =
     Some \<lparr>StdoutAddr = [CHR 0xEF, CHR 0xBF, CHR 0xBD], StderrAddr = []\<rparr>\<close>
    by (simp add: parse_GRPCServerConfig_def parse_object_def parse_member_def parse_string_def
        expect_def skip_space_def is_space_def getu4_def hex_value_def EncodeRune_def field_def
        char_of_eq_iff)
  have 5: "\<lparr>StdoutAddr = [CHR 0xEF, CHR 0xBF, CHR 0xBD], StderrAddr = []\<rparr> \<noteq> config (config_state [CHR 0xFF] [])"
    by (simp add: config_state_def)
  from 1 2 3 4 5 show ?thesis by simp
qed

text \<open>
  C3, amended. For every state whose two addresses are valid UTF-8, \<open>Config\<close> returns a
  payload, and parsing the structured record of that payload gives exactly the two
  addresses of the configuration.
\<close>

theorem Config_round_trip:
  assumes "ValidString (StdoutAddr (config s))" and "ValidString (StderrAddr (config s))"
  shows "\<exists>out. fst (Config s) = Returns out \<and> parse_GRPCServerConfig out = Some (config s)"
proof -
  from parse_Config_output[OF assms]
  have "parse_GRPCServerConfig
     (CHR ''{'' # appendString ''stdout_addr'' @ CHR '':'' # appendString (StdoutAddr (config s)) @
      CHR '','' # appendString ''stderr_addr'' @ CHR '':'' # appendString (StderrAddr (config s)) @
      [CHR ''}'', CHR 0x0A]) = Some (config s)"
    by simp
  then show ?thesis by (simp add: Config_raw)
qed

text \<open>
  The amended C3 at a configuration whose first address holds a character the encoder
  escapes and a two-byte UTF-8 sequence.
\<close>

theorem Config_round_trip_witness:
  \<open>ValidString (StdoutAddr (config (config_state (''/tmp/a<b'' @ [CHR 0xC3, CHR 0xA9]) ''127.0.0.1:1234''))) \<and>
   ValidString (StderrAddr (config (config_state (''/tmp/a<b'' @ [CHR 0xC3, CHR 0xA9]) ''127.0.0.1:1234''))) \<and>
   fst (Config (config_state (''/tmp/a<b'' @ [CHR 0xC3, CHR 0xA9]) ''127.0.0.1:1234'')) =
     Returns (''{"stdout_addr":"/tmp/a'' @ [CHR 0x5C] @ ''u003cb'' @ [CHR 0xC3, CHR 0xA9] @
              ''","stderr_addr":"127.0.0.1:1234"}'' @ [CHR 0x0A]) \<and>
   parse_GRPCServerConfig
     (''{"stdout_addr":"/tmp/a'' @ [CHR 0x5C] @ ''u003cb'' @ [CHR 0xC3, CHR 0xA9] @
      ''","stderr_addr":"127.0.0.1:1234"}'' @ [CHR 0x0A]) =
     Some \<lparr>StdoutAddr = ''/tmp/a<b'' @ [CHR 0xC3, CHR 0xA9], StderrAddr = ''127.0.0.1:1234''\<rparr>\<close>
proof -
  let ?s = "config_state (''/tmp/a<b'' @ [CHR 0xC3, CHR 0xA9]) ''127.0.0.1:1234''"
  have h1: "ValidString (StdoutAddr (config ?s))"
    by (simp add: config_state_def DecodeRuneInString_def RuneError_def Let_def)
  have h2: "ValidString (StderrAddr (config ?s))"
    by (simp add: config_state_def)
  have v: \<open>fst (Config ?s) =
     Returns (''{"stdout_addr":"/tmp/a'' @ [CHR 0x5C] @ ''u003cb'' @ [CHR 0xC3, CHR 0xA9] @
              ''","stderr_addr":"127.0.0.1:1234"}'' @ [CHR 0x0A])\<close>
    by (simp add: Config_raw config_state_def appendString_def htmlSafeSet_def escape_byte_def
        hex_def DecodeRuneInString_def RuneError_def Let_def)
  from Config_round_trip[OF h1 h2] obtain out where
    "fst (Config ?s) = Returns out" "parse_GRPCServerConfig out = Some (config ?s)" by blast
  with v have \<open>parse_GRPCServerConfig
     (''{"stdout_addr":"/tmp/a'' @ [CHR 0x5C] @ ''u003cb'' @ [CHR 0xC3, CHR 0xA9] @
      ''","stderr_addr":"127.0.0.1:1234"}'' @ [CHR 0x0A]) = Some (config ?s)\<close>
    by simp
  moreover have "config ?s = \<lparr>StdoutAddr = ''/tmp/a<b'' @ [CHR 0xC3, CHR 0xA9], StderrAddr = ''127.0.0.1:1234''\<rparr>"
    by (simp add: config_state_def)
  ultimately show ?thesis using h1 h2 v by simp
qed

text \<open>
  C4. The comments of lines 24, 81 and 86 give the configuration as JSON that is then
  base64-encoded, and the claim has the record encoded again as a text-safe payload
  for a single line. \<open>Config\<close> has no such second step. For every state it returns the
  JSON object itself, which starts with a brace, ends with the newline the encoder
  appends, and is no base64 text; on the zero configuration it is the object with the
  field names \<open>stdout_addr\<close> and \<open>stderr_addr\<close> and a line break.
\<close>

theorem Config_bare_json:
  \<open>(\<exists>out. fst (Config s) = Returns out \<and> hd out = CHR ''{'' \<and> last out = CHR 0x0A \<and>
      \<not> list_all base64_char out) \<and>
   fst (Config (bootstrap Map.empty None)) =
     Returns (''{"stdout_addr":"","stderr_addr":""}'' @ [CHR 0x0A])\<close>
  by (simp add: Config_eq bootstrap_def appendString_def base64_char_def)

text \<open>
  C8. \<open>Config\<close> leaves the state as it was; a second call on the state the first one
  left returns the same string; and the string depends on the field \<open>config\<close> only: two
  states with the same \<open>config\<close> give the same string.
\<close>

theorem Config_idempotent:
  "snd (Config s) = s \<and>
   fst (Config (snd (Config s))) = fst (Config s) \<and>
   (config s' = config s \<longrightarrow> fst (Config s') = fst (Config s))"
  by (simp add: Config_eq)

text \<open>
  C8 at two states that share the configuration and differ in \<open>TLS\<close> and \<open>server\<close>.
\<close>

theorem Config_idempotent_witness:
  \<open>config ((bootstrap Map.empty (Some 7))\<lparr>server := Some 1, config := \<lparr>StdoutAddr = ''/tmp/o'', StderrAddr = ''/tmp/e''\<rparr>\<rparr>) =
     config ((bootstrap Map.empty None)\<lparr>config := \<lparr>StdoutAddr = ''/tmp/o'', StderrAddr = ''/tmp/e''\<rparr>\<rparr>) \<and>
   fst (Config ((bootstrap Map.empty (Some 7))\<lparr>server := Some 1, config := \<lparr>StdoutAddr = ''/tmp/o'', StderrAddr = ''/tmp/e''\<rparr>\<rparr>)) =
     fst (Config ((bootstrap Map.empty None)\<lparr>config := \<lparr>StdoutAddr = ''/tmp/o'', StderrAddr = ''/tmp/e''\<rparr>\<rparr>)) \<and>
   fst (Config ((bootstrap Map.empty None)\<lparr>config := \<lparr>StdoutAddr = ''/tmp/o'', StderrAddr = ''/tmp/e''\<rparr>\<rparr>)) =
     Returns (''{"stdout_addr":"/tmp/o","stderr_addr":"/tmp/e"}'' @ [CHR 0x0A])\<close>
proof -
  let ?c = "\<lparr>StdoutAddr = ''/tmp/o'', StderrAddr = ''/tmp/e''\<rparr>"
  let ?s = "(bootstrap Map.empty None)\<lparr>config := ?c\<rparr>"
  let ?s' = "(bootstrap Map.empty (Some 7))\<lparr>server := Some 1, config := ?c\<rparr>"
  have h: "config ?s' = config ?s" by (simp add: bootstrap_def)
  have v: \<open>fst (Config ?s) = Returns (''{"stdout_addr":"/tmp/o","stderr_addr":"/tmp/e"}'' @ [CHR 0x0A])\<close>
    by (simp add: Config_eq bootstrap_def appendString_def htmlSafeSet_def)
  from Config_idempotent[of ?s ?s'] h v show ?thesis by simp
qed

text \<open>
  C9. Whatever the two strings of the configuration are, the encoder reports no error
  on it, on any buffer, so \<open>Config\<close> never reaches \<open>panic(err)\<close>: it returns a string.
\<close>

theorem Config_never_panics:
  "(\<exists>out. fst (Config s) = Returns out) \<and>
   (\<exists>out. Encode buf (GRPCServerConfig_value c) = (None, out))"
  by (simp add: Config_eq Encode_def marshal_GRPCServerConfig)

end
